theory Spec2Isabelle
  imports Main "HOL-Library.Sublist"
begin

section \<open>The extension manager of wifiphisher (common/extensions.py)\<close>

text \<open>
  The class \<^verbatim>\<open>ExtensionManager\<close> loads the extensions, feeds every captured packet
  to each of them on a listening thread, and broadcasts the packets they craft on a
  sending thread. The embedding keeps the fields and methods of the class under their
  own names (without the leading underscore, which an Isabelle name cannot carry).
  A Python exception is a value: its class name and its argument.
\<close>

subsection \<open>Exceptions and extension objects\<close>

datatype exn = Exn (exn_class: string) (exn_arg: string)

text \<open>
  An extension is an object of a class outside this file. It owns private state and
  provides \<^verbatim>\<open>get_packet(pkt)\<close> and \<^verbatim>\<open>send_output()\<close>. Either method returns a list,
  returns \<^verbatim>\<open>None\<close> (the \<open>None\<close> of the option), or raises; either may change the
  private state, also when it raises.
\<close>

record ('s, 'p) extension =
  ext_state :: 's
  get_packet :: "'s \<Rightarrow> 'p \<Rightarrow> (exn + 'p list option) \<times> 's"
  send_output :: "'s \<Rightarrow> (exn + string list option) \<times> 's"

definition call_get_packet ::
  "('s, 'p) extension \<Rightarrow> 'p \<Rightarrow> (exn + 'p list option) \<times> ('s, 'p) extension" where
  "call_get_packet x pkt =
     (case get_packet x (ext_state x) pkt of (r, s') \<Rightarrow> (r, x\<lparr>ext_state := s'\<rparr>))"

definition call_send_output ::
  "('s, 'p) extension \<Rightarrow> (exn + string list option) \<times> ('s, 'p) extension" where
  "call_send_output x =
     (case send_output x (ext_state x) of (r, s') \<Rightarrow> (r, x\<lparr>ext_state := s'\<rparr>))"

subsection \<open>The manager object\<close>

text \<open>
  The socket is an object of scapy (\<^verbatim>\<open>linux.L2Socket\<close>); the model keeps what was asked
  of it: the packets sent through it, in order, and how many times it was closed.
\<close>

record 'p l2socket =
  iface :: string
  sent :: "'p list"
  closed :: nat

text \<open>
  Where each thread stands in its target function. \<open>L_Done r\<close> and \<open>S_Done r\<close> are a
  thread whose target has ended: \<open>r = None\<close> when it returned, \<open>r = Some e\<close> when the
  exception \<open>e\<close> left it (which the threading module would print).
\<close>

datatype listen_pc =
    L_NotStarted
  | L_While
  | L_Sniff
  | L_Except exn
  | L_Done "exn option"

datatype send_pc =
    S_NotStarted
  | S_OuterWhile
  | S_If
  | S_InnerWhile
  | S_For nat
  | S_Sleep
  | S_Close
  | S_Except exn
  | S_Done "exn option"

record ('s, 'p) manager =
  extensions :: "('s, 'p) extension list"
  interface :: "string option"
  socket :: "'p l2socket option"
  should_continue :: bool
  packets_to_send :: "'p list"
  listen_thread :: listen_pc
  send_thread :: send_pc

text \<open>\<^verbatim>\<open>__init__\<close>: the fresh manager.\<close>

definition ExtensionManager :: "('s, 'p) manager" where
  "ExtensionManager =
     \<lparr>extensions = [], interface = None, socket = None, should_continue = True,
      packets_to_send = [], listen_thread = L_NotStarted, send_thread = S_NotStarted\<rparr>"

subsection \<open>\<^verbatim>\<open>_process_packet\<close> and \<^verbatim>\<open>get_output\<close>\<close>

text \<open>
  \<^verbatim>\<open>for extension in self._extensions: received_packets = extension.get_packet(pkt);
  if received_packets and len(received_packets) > 0: self._packets_to_send += received_packets\<close>.
  There is no handler in the method: an exception of \<^verbatim>\<open>get_packet\<close> ends the loop and
  leaves the method, with the queue as the earlier extensions left it.
\<close>

fun process_loop ::
  "('s, 'p) extension list \<Rightarrow> 'p \<Rightarrow> 'p list \<Rightarrow> exn option \<times> ('s, 'p) extension list \<times> 'p list" where
  "process_loop [] pkt q = (None, [], q)"
| "process_loop (x # xs) pkt q =
     (case call_get_packet x pkt of
        (Inl e, x') \<Rightarrow> (Some e, x' # xs, q)
      | (Inr received_packets, x') \<Rightarrow>
          (let q' = (case received_packets of
                       None \<Rightarrow> q
                     | Some ps \<Rightarrow> if ps \<noteq> [] \<and> length ps > 0 then q @ ps else q)
           in case process_loop xs pkt q' of (r, xs', q'') \<Rightarrow> (r, x' # xs', q'')))"

definition process_packet ::
  "('s, 'p) manager \<Rightarrow> 'p \<Rightarrow> exn option \<times> ('s, 'p) manager" where
  "process_packet m pkt =
     (case process_loop (extensions m) pkt (packets_to_send m) of
        (r, xs, q) \<Rightarrow> (r, m\<lparr>extensions := xs, packets_to_send := q\<rparr>))"

text \<open>
  \<^verbatim>\<open>output = []; for extension in self._extensions: m_output = extension.send_output();
  if m_output and len(m_output) > 0: output += m_output; return output\<close>.
\<close>

fun output_loop ::
  "('s, 'p) extension list \<Rightarrow> string list \<Rightarrow> (exn + string list) \<times> ('s, 'p) extension list" where
  "output_loop [] output = (Inr output, [])"
| "output_loop (x # xs) output =
     (case call_send_output x of
        (Inl e, x') \<Rightarrow> (Inl e, x' # xs)
      | (Inr m_output, x') \<Rightarrow>
          (let output' = (case m_output of
                            None \<Rightarrow> output
                          | Some ls \<Rightarrow> if ls \<noteq> [] \<and> length ls > 0 then output @ ls else output)
           in case output_loop xs output' of (r, xs') \<Rightarrow> (r, x' # xs')))"

definition get_output ::
  "('s, 'p) manager \<Rightarrow> (exn + string list) \<times> ('s, 'p) manager" where
  "get_output m =
     (case output_loop (extensions m) [] of (r, xs) \<Rightarrow> (r, m\<lparr>extensions := xs\<rparr>))"

subsection \<open>\<^verbatim>\<open>init_extensions\<close>\<close>

text \<open>
  \<^verbatim>\<open>str.title()\<close> on ASCII text, as CPython computes it: a letter that follows a letter
  is lowered, any other letter is raised, and a character that is no letter ends the word.
\<close>

definition ascii_lowercase :: string where
  "ascii_lowercase = ''abcdefghijklmnopqrstuvwxyz''"

definition ascii_uppercase :: string where
  "ascii_uppercase = ''ABCDEFGHIJKLMNOPQRSTUVWXYZ''"

definition islower :: "char \<Rightarrow> bool" where
  "islower c = (c \<in> set ascii_lowercase)"

definition isupper :: "char \<Rightarrow> bool" where
  "isupper c = (c \<in> set ascii_uppercase)"

definition toupper :: "char \<Rightarrow> char" where
  "toupper c = (case map_of (zip ascii_lowercase ascii_uppercase) c of Some u \<Rightarrow> u | None \<Rightarrow> c)"

definition tolower :: "char \<Rightarrow> char" where
  "tolower c = (case map_of (zip ascii_uppercase ascii_lowercase) c of Some l \<Rightarrow> l | None \<Rightarrow> c)"

fun title_loop :: "bool \<Rightarrow> string \<Rightarrow> string" where
  "title_loop previous_is_cased [] = []"
| "title_loop previous_is_cased (c # cs) =
     (if islower c then (if \<not> previous_is_cased then toupper c else c) # title_loop True cs
      else if isupper c then (if previous_is_cased then tolower c else c) # title_loop True cs
      else c # title_loop False cs)"

definition title :: "string \<Rightarrow> string" where
  "title s = title_loop False s"

text \<open>
  What the method reads from outside this file. The module \<^verbatim>\<open>wifiphisher.common.constants\<close>
  is not among the sources, so its two constants are parameters. \<open>modules\<close> is the table of
  importable modules, each with its attributes that are extension classes (a class is its
  constructor, which may raise). \<open>namedtuple\<close> is \<^verbatim>\<open>collections.namedtuple\<close> on the keys of
  the shared data: \<open>Some e\<close> when it rejects a key. \<open>L2Socket\<close> is the socket constructor of
  scapy: \<open>Some e\<close> when it raises for that interface name.
\<close>

type_synonym 'v shared_data = "(string \<times> 'v) list"

type_synonym ('v, 's, 'p) extension_class = "'v shared_data \<Rightarrow> exn + ('s, 'p) extension"

record ('v, 's, 'p) environment =
  EXTENSIONS :: "string list"
  EXTENSIONS_LOADPATH :: string
  modules :: "(string \<times> (string \<times> ('v, 's, 'p) extension_class) list) list"
  namedtuple :: "string list \<Rightarrow> exn option"
  L2Socket :: "string \<Rightarrow> exn option"

definition import_module ::
  "('v, 's, 'p) environment \<Rightarrow> string \<Rightarrow> exn + (string \<times> ('v, 's, 'p) extension_class) list" where
  "import_module env name =
     (case map_of (modules env) name of
        None \<Rightarrow> Inl (Exn ''ImportError'' name)
      | Some modl \<Rightarrow> Inr modl)"

definition getattr ::
  "(string \<times> ('v, 's, 'p) extension_class) list \<Rightarrow> string \<Rightarrow> exn + ('v, 's, 'p) extension_class" where
  "getattr modl name =
     (case map_of modl name of
        None \<Rightarrow> Inl (Exn ''AttributeError'' name)
      | Some cls \<Rightarrow> Inr cls)"

text \<open>
  The loop of \<^verbatim>\<open>init_extensions\<close>: import the module, look the class up, construct the
  object, append it to \<^verbatim>\<open>self._extensions\<close>. The list is appended to in place, so what
  was appended stays when a later step raises.
\<close>

fun load_loop ::
  "('v, 's, 'p) environment \<Rightarrow> 'v shared_data \<Rightarrow> string list \<Rightarrow> ('s, 'p) extension list
     \<Rightarrow> exn option \<times> ('s, 'p) extension list" where
  "load_loop env shared_data [] exts = (None, exts)"
| "load_loop env shared_data (extension # rest) exts =
     (case import_module env (EXTENSIONS_LOADPATH env @ extension) of
        Inl e \<Rightarrow> (Some e, exts)
      | Inr modl \<Rightarrow>
          (case getattr modl (title extension) of
             Inl e \<Rightarrow> (Some e, exts)
           | Inr ExtensionClass \<Rightarrow>
               (case ExtensionClass shared_data of
                  Inl e \<Rightarrow> (Some e, exts)
                | Inr obj \<Rightarrow> load_loop env shared_data rest (exts @ [obj]))))"

definition init_extensions ::
  "('v, 's, 'p) environment \<Rightarrow> 'v shared_data \<Rightarrow> ('s, 'p) manager \<Rightarrow> exn option \<times> ('s, 'p) manager" where
  "init_extensions env shared_data m =
     (case namedtuple env (map fst shared_data) of
        Some e \<Rightarrow> (Some e, m)
      | None \<Rightarrow>
          (case load_loop env shared_data (EXTENSIONS env) (extensions m) of
             (r, exts) \<Rightarrow> (r, m\<lparr>extensions := exts\<rparr>)))"

subsection \<open>\<^verbatim>\<open>set_interface\<close> and \<^verbatim>\<open>start_extensions\<close>\<close>

definition set_interface ::
  "('v, 's, 'p) environment \<Rightarrow> string \<Rightarrow> ('s, 'p) manager \<Rightarrow> exn option \<times> ('s, 'p) manager" where
  "set_interface env name m =
     (let m1 = m\<lparr>interface := Some name\<rparr> in
      case L2Socket env name of
        Some e \<Rightarrow> (Some e, m1)
      | None \<Rightarrow> (None, m1\<lparr>socket := Some \<lparr>iface = name, sent = [], closed = 0\<rparr>\<rparr>))"

text \<open>
  \<^verbatim>\<open>Thread.start()\<close> raises RuntimeError on a thread that was started before. A started
  listening thread stands at its \<^verbatim>\<open>while\<close>, a started sending thread at its outer
  \<^verbatim>\<open>while\<close>.
\<close>

definition start_extensions :: "('s, 'p) manager \<Rightarrow> exn option \<times> ('s, 'p) manager" where
  "start_extensions m =
     (if listen_thread m \<noteq> L_NotStarted
      then (Some (Exn ''RuntimeError'' ''threads can only be started once''), m)
      else
        (let m1 = m\<lparr>listen_thread := L_While\<rparr> in
         if send_thread m1 \<noteq> S_NotStarted
         then (Some (Exn ''RuntimeError'' ''threads can only be started once''), m1)
         else (None, m1\<lparr>send_thread := S_OuterWhile\<rparr>)))"

subsection \<open>The two threads\<close>

text \<open>
  The names bound in the module: its six imports (lines 5 to 10 of the file) and its one
  class. A global name that is neither here nor a builtin raises NameError when it is
  read; \<^verbatim>\<open>time\<close> is no builtin of Python.
\<close>

definition module_globals :: "string list" where
  "module_globals =
     [''importlib'', ''threading'', ''collections'', ''dot11'', ''linux'', ''constants'',
      ''ExtensionManager'']"

definition lookup_global :: "string \<Rightarrow> exn option" where
  "lookup_global name =
     (if name \<in> set module_globals then None else Some (Exn ''NameError'' name))"

text \<open>\<^verbatim>\<open>_stopfilter\<close>: \<^verbatim>\<open>return not self._should_continue\<close>.\<close>

definition stopfilter :: "('s, 'p) manager \<Rightarrow> 'p \<Rightarrow> bool" where
  "stopfilter m pkt = (\<not> should_continue m)"

text \<open>
  What one call of \<^verbatim>\<open>dot11.sniff(..., count=1, ...)\<close> meets. \<^verbatim>\<open>sniff\<close> belongs to scapy,
  not to this repository, and what it does with an exception raised by its callback
  \<^verbatim>\<open>prn\<close> is scapy's choice, not the manager's; so it is part of what the call meets,
  not fixed by the model:
  \<^item> \<open>Frame pkt\<close>: a frame arrives, and this \<^verbatim>\<open>sniff\<close> lets an exception of \<^verbatim>\<open>prn\<close> through
    to its caller;
  \<^item> \<open>FrameCaught pkt\<close>: a frame arrives, and this \<^verbatim>\<open>sniff\<close> catches an exception of
    \<^verbatim>\<open>prn\<close> itself and returns (as the releases of scapy do that wrap the callback in
    their own handler);
  \<^item> \<open>CaptureRaises e\<close>: the interface fails and \<^verbatim>\<open>sniff\<close> raises \<open>e\<close>.
  When \<^verbatim>\<open>prn\<close> raises nothing, \<open>Frame\<close> and \<open>FrameCaught\<close> are the same.
\<close>

datatype 'p capture = Frame 'p | FrameCaught 'p | CaptureRaises exn

text \<open>
  One step of \<^verbatim>\<open>_listen\<close>. At \<open>L_While\<close> the thread reads the flag. At \<open>L_Sniff\<close> it is
  inside \<^verbatim>\<open>sniff\<close>, which hands the frame to \<^verbatim>\<open>_process_packet\<close>, then asks
  \<^verbatim>\<open>_stopfilter\<close>, and returns after this one frame either way (\<^verbatim>\<open>count=1\<close>). An exception
  of the interface leaves \<^verbatim>\<open>sniff\<close> and the loop for the handler; so does an exception of
  \<^verbatim>\<open>_process_packet\<close> when \<^verbatim>\<open>sniff\<close> lets it through, and when \<^verbatim>\<open>sniff\<close> catches it the
  call returns and the thread is back at its \<^verbatim>\<open>while\<close>.
  At \<open>L_Except e\<close> the thread is in \<^verbatim>\<open>except: if not self._should_continue: pass\<close>, which
  has no other branch: the target returns.
\<close>

definition listen_step :: "'p capture \<Rightarrow> ('s, 'p) manager \<Rightarrow> ('s, 'p) manager" where
  "listen_step c m =
     (case listen_thread m of
        L_NotStarted \<Rightarrow> m
      | L_While \<Rightarrow>
          (if should_continue m then m\<lparr>listen_thread := L_Sniff\<rparr>
           else m\<lparr>listen_thread := L_Done None\<rparr>)
      | L_Sniff \<Rightarrow>
          (case c of
             CaptureRaises e \<Rightarrow> m\<lparr>listen_thread := L_Except e\<rparr>
           | Frame pkt \<Rightarrow>
               (case process_packet m pkt of
                  (Some e, m') \<Rightarrow> m'\<lparr>listen_thread := L_Except e\<rparr>
                | (None, m') \<Rightarrow>
                    (if stopfilter m' pkt then m'\<lparr>listen_thread := L_While\<rparr>
                     else m'\<lparr>listen_thread := L_While\<rparr>))
           | FrameCaught pkt \<Rightarrow>
               (case process_packet m pkt of
                  (Some e, m') \<Rightarrow> m'\<lparr>listen_thread := L_While\<rparr>
                | (None, m') \<Rightarrow>
                    (if stopfilter m' pkt then m'\<lparr>listen_thread := L_While\<rparr>
                     else m'\<lparr>listen_thread := L_While\<rparr>)))
      | L_Except e \<Rightarrow>
          (if \<not> should_continue m then m\<lparr>listen_thread := L_Done None\<rparr>
           else m\<lparr>listen_thread := L_Done None\<rparr>)
      | L_Done r \<Rightarrow> m)"

text \<open>
  One step of \<^verbatim>\<open>_send\<close>; \<open>failure\<close> is the exception the socket raises if this step
  calls it (\<open>None\<close>: the call succeeds).
  \<open>S_OuterWhile\<close> and \<open>S_InnerWhile\<close> read the flag, \<open>S_If\<close> reads the length of the queue,
  \<open>S_For i\<close> is the list iterator at index \<open>i\<close> (it reads the list anew at every step,
  so it meets packets appended meanwhile), \<open>S_Sleep\<close> is \<^verbatim>\<open>time.sleep(1)\<close>, which stands
  after the outer loop, \<open>S_Close\<close> is \<^verbatim>\<open>self._socket.close()\<close>, and \<open>S_Except e\<close> the handler.
\<close>

definition send_step :: "exn option \<Rightarrow> ('s, 'p) manager \<Rightarrow> ('s, 'p) manager" where
  "send_step failure m =
     (case send_thread m of
        S_NotStarted \<Rightarrow> m
      | S_OuterWhile \<Rightarrow>
          (if should_continue m then m\<lparr>send_thread := S_If\<rparr>
           else m\<lparr>send_thread := S_Sleep\<rparr>)
      | S_If \<Rightarrow>
          (if length (packets_to_send m) > 0 then m\<lparr>send_thread := S_InnerWhile\<rparr>
           else m\<lparr>send_thread := S_OuterWhile\<rparr>)
      | S_InnerWhile \<Rightarrow>
          (if should_continue m then m\<lparr>send_thread := S_For 0\<rparr>
           else m\<lparr>send_thread := S_OuterWhile\<rparr>)
      | S_For i \<Rightarrow>
          (if i < length (packets_to_send m) then
             (case socket m of
                None \<Rightarrow> m\<lparr>send_thread := S_Except (Exn ''AttributeError'' ''send'')\<rparr>
              | Some sock \<Rightarrow>
                  (case failure of
                     Some e \<Rightarrow> m\<lparr>send_thread := S_Except e\<rparr>
                   | None \<Rightarrow>
                       m\<lparr>socket := Some (sock\<lparr>sent := sent sock @ [packets_to_send m ! i]\<rparr>),
                         send_thread := S_For (Suc i)\<rparr>))
           else m\<lparr>send_thread := S_InnerWhile\<rparr>)
      | S_Sleep \<Rightarrow>
          (case lookup_global ''time'' of
             Some e \<Rightarrow> m\<lparr>send_thread := S_Except e\<rparr>
           | None \<Rightarrow> m\<lparr>send_thread := S_Close\<rparr>)
      | S_Close \<Rightarrow>
          (case socket m of
             None \<Rightarrow> m\<lparr>send_thread := S_Except (Exn ''AttributeError'' ''close'')\<rparr>
           | Some sock \<Rightarrow>
               (case failure of
                  Some e \<Rightarrow> m\<lparr>send_thread := S_Except e\<rparr>
                | None \<Rightarrow>
                    m\<lparr>socket := Some (sock\<lparr>closed := Suc (closed sock)\<rparr>),
                      send_thread := S_Done None\<rparr>))
      | S_Except e \<Rightarrow>
          (if \<not> should_continue m then m\<lparr>send_thread := S_Done None\<rparr>
           else m\<lparr>send_thread := S_Done None\<rparr>)
      | S_Done r \<Rightarrow> m)"

text \<open>
  The threads run beside the caller, so a run is an interleaving: a list of steps, each
  of one thread, with what that step meets outside. The capture of a \<open>ListenStep\<close> is
  read only by a step that stands in \<^verbatim>\<open>sniff\<close>, the failure of a \<open>SendStep\<close> only by a
  step that calls the socket; a step of a thread that was not started or has ended
  changes nothing.
\<close>

datatype 'p worker_step = ListenStep "'p capture" | SendStep "exn option"

fun worker :: "'p worker_step \<Rightarrow> ('s, 'p) manager \<Rightarrow> ('s, 'p) manager" where
  "worker (ListenStep c) m = listen_step c m"
| "worker (SendStep failure) m = send_step failure m"

definition run_workers :: "'p worker_step list \<Rightarrow> ('s, 'p) manager \<Rightarrow> ('s, 'p) manager" where
  "run_workers ws m = fold worker ws m"

subsection \<open>\<^verbatim>\<open>on_exit\<close>\<close>

text \<open>
  \<^verbatim>\<open>self._should_continue = False; self.listen_thread.join(5); self.send_thread.join(5)\<close>.
  The method has no parameter, and no \<^verbatim>\<open>return\<close>: it returns \<^verbatim>\<open>None\<close>. \<^verbatim>\<open>join\<close> raises
  RuntimeError on a thread that was never started; otherwise it returns \<^verbatim>\<open>None\<close> when the
  thread has ended or the five seconds are over, and the threads step on while the caller
  waits: \<open>during_listen_join\<close> and \<open>during_send_join\<close> are the steps they take in the two
  waits.
\<close>

definition on_exit ::
  "'p worker_step list \<Rightarrow> 'p worker_step list \<Rightarrow> ('s, 'p) manager \<Rightarrow> exn option \<times> ('s, 'p) manager" where
  "on_exit during_listen_join during_send_join m =
     (let m1 = m\<lparr>should_continue := False\<rparr> in
      if listen_thread m1 = L_NotStarted
      then (Some (Exn ''RuntimeError'' ''cannot join thread before it is started''), m1)
      else
        (let m2 = run_workers during_listen_join m1 in
         if send_thread m2 = S_NotStarted
         then (Some (Exn ''RuntimeError'' ''cannot join thread before it is started''), m2)
         else (None, run_workers during_send_join m2)))"

subsection \<open>Runs of the whole manager\<close>

text \<open>
  The public methods, as the owner of the manager calls them, and the state each call
  leaves behind, whether it returned or raised.
\<close>

datatype ('v, 'p) api_call =
    SetInterface string
  | InitExtensions "'v shared_data"
  | StartExtensions
  | OnExit "'p worker_step list" "'p worker_step list"
  | GetOutput

fun call :: "('v, 's, 'p) environment \<Rightarrow> ('v, 'p) api_call \<Rightarrow> ('s, 'p) manager \<Rightarrow> ('s, 'p) manager" where
  "call env (SetInterface name) m = snd (set_interface env name m)"
| "call env (InitExtensions shared_data) m = snd (init_extensions env shared_data m)"
| "call env StartExtensions m = snd (start_extensions m)"
| "call env (OnExit ws1 ws2) m = snd (on_exit ws1 ws2 m)"
| "call env GetOutput m = snd (get_output m)"

datatype ('v, 'p) action = Worker "'p worker_step" | Call "('v, 'p) api_call"

fun step :: "('v, 's, 'p) environment \<Rightarrow> ('v, 'p) action \<Rightarrow> ('s, 'p) manager \<Rightarrow> ('s, 'p) manager" where
  "step env (Worker w) m = worker w m"
| "step env (Call c) m = call env c m"

definition run :: "('v, 's, 'p) environment \<Rightarrow> ('v, 'p) action list \<Rightarrow> ('s, 'p) manager \<Rightarrow> ('s, 'p) manager" where
  "run env as m = fold (step env) as m"

subsection \<open>Notions the properties are stated with\<close>

text \<open>
  The list a method call handed back: nothing when it raised or returned \<^verbatim>\<open>None\<close>.
\<close>

definition returned_list :: "exn + 'a list option \<Rightarrow> 'a list" where
  "returned_list r = (case r of Inl e \<Rightarrow> [] | Inr None \<Rightarrow> [] | Inr (Some xs) \<Rightarrow> xs)"

text \<open>How many times the socket the manager holds was closed.\<close>

definition close_count :: "('s, 'p) manager \<Rightarrow> nat" where
  "close_count m = (case socket m of None \<Rightarrow> 0 | Some sock \<Rightarrow> closed sock)"

text \<open>
  The socket was never closed and the sending thread does not stand at the statement that
  closes it.
\<close>

definition never_closed :: "('s, 'p) manager \<Rightarrow> bool" where
  "never_closed m = (send_thread m \<noteq> S_Close \<and> close_count m = 0)"

text \<open>An exception has left the target of one of the two threads.\<close>

fun listen_raised :: "listen_pc \<Rightarrow> bool" where
  "listen_raised (L_Done (Some e)) = True"
| "listen_raised pc = False"

fun send_raised :: "send_pc \<Rightarrow> bool" where
  "send_raised (S_Done (Some e)) = True"
| "send_raised pc = False"

definition thread_raised :: "('s, 'p) manager \<Rightarrow> bool" where
  "thread_raised m = (listen_raised (listen_thread m) \<or> send_raised (send_thread m))"

text \<open>
  The body of the loop of \<^verbatim>\<open>init_extensions\<close> for one identifier, cut in two: \<open>resolve\<close> is
  its first two statements (the module import and the class lookup), \<open>construct\<close> all three.
\<close>

definition resolve ::
  "('v, 's, 'p) environment \<Rightarrow> string \<Rightarrow> exn + ('v, 's, 'p) extension_class" where
  "resolve env extension =
     (case import_module env (EXTENSIONS_LOADPATH env @ extension) of
        Inl e \<Rightarrow> Inl e
      | Inr modl \<Rightarrow> getattr modl (title extension))"

definition construct ::
  "('v, 's, 'p) environment \<Rightarrow> 'v shared_data \<Rightarrow> string \<Rightarrow> exn + ('s, 'p) extension" where
  "construct env shared_data extension =
     (case resolve env extension of
        Inl e \<Rightarrow> Inl e
      | Inr ExtensionClass \<Rightarrow> ExtensionClass shared_data)"

subsection \<open>Concrete extensions and environments for the examples\<close>

text \<open>
  An extension with fixed answers: \<open>on_packet\<close> to every \<^verbatim>\<open>get_packet\<close>, \<open>on_output\<close> to
  every \<^verbatim>\<open>send_output\<close>. Its private state counts the calls of \<^verbatim>\<open>get_packet\<close>.
\<close>

definition stub_extension ::
  "(exn + string list option) \<Rightarrow> (exn + string list option) \<Rightarrow> (nat, string) extension" where
  "stub_extension on_packet on_output =
     \<lparr>ext_state = 0,
      get_packet = (\<lambda>n pkt. (on_packet, Suc n)),
      send_output = (\<lambda>n. (on_output, n))\<rparr>"

text \<open>
  An environment with the extensions \<^verbatim>\<open>x\<close> and \<^verbatim>\<open>y\<close> configured, the given modules
  importable, and a library that never fails.
\<close>

definition stub_environment ::
  "(string \<times> (string \<times> (string, nat, string) extension_class) list) list
     \<Rightarrow> (string, nat, string) environment" where
  "stub_environment mods =
     \<lparr>EXTENSIONS = [''x'', ''y''],
      EXTENSIONS_LOADPATH = ''wifiphisher.extensions.'',
      modules = mods,
      namedtuple = (\<lambda>keys. None),
      L2Socket = (\<lambda>name. None)\<rparr>"

text \<open>
  Three environments: only the module of \<^verbatim>\<open>x\<close> exists; both modules exist and the class
  of \<^verbatim>\<open>y\<close> raises in its constructor; both exist and construct. The extension of \<^verbatim>\<open>x\<close>
  answers every frame with the frame \<^verbatim>\<open>G1\<close>.
\<close>

definition x_module :: "string \<times> (string \<times> (string, nat, string) extension_class) list" where
  "x_module =
     (''wifiphisher.extensions.x'',
      [(''X'', \<lambda>shared_data. Inr (stub_extension (Inr (Some [''G1''])) (Inr None)))])"

definition env_x_only :: "(string, nat, string) environment" where
  "env_x_only = stub_environment [x_module]"

definition env_y_raises :: "(string, nat, string) environment" where
  "env_y_raises =
     stub_environment
       [x_module,
        (''wifiphisher.extensions.y'',
         [(''Y'', \<lambda>shared_data. Inl (Exn ''IOError'' ''resource unavailable''))])]"

definition env_both :: "(string, nat, string) environment" where
  "env_both =
     stub_environment
       [x_module,
        (''wifiphisher.extensions.y'',
         [(''Y'', \<lambda>shared_data. Inr (stub_extension (Inr None) (Inr None)))])]"

text \<open>
  Two runs that end in a shutdown. In the first no frame arrives and the queue stays
  empty. In the second the listening thread dispatches one frame, the sending thread sends
  the queue once, and then the owner calls \<^verbatim>\<open>on_exit\<close>; the sending thread takes its
  last steps while \<^verbatim>\<open>on_exit\<close> waits for the listening thread.
\<close>

definition quiet_shutdown :: "(string, string) action list" where
  "quiet_shutdown =
     [Call (InitExtensions []), Call (SetInterface ''wlan0''), Call StartExtensions,
      Worker (SendStep None), Worker (SendStep None),
      Call (OnExit [SendStep None, SendStep None, SendStep None] [])]"

definition busy_shutdown :: "(string, string) action list" where
  "busy_shutdown =
     [Call (InitExtensions []), Call (SetInterface ''wlan0''), Call StartExtensions,
      Worker (ListenStep (Frame ''F'')), Worker (ListenStep (Frame ''F'')),
      Worker (SendStep None), Worker (SendStep None), Worker (SendStep None),
      Worker (SendStep None), Worker (SendStep None),
      Call (OnExit [SendStep None, SendStep None, SendStep None, SendStep None, SendStep None] [])]"

text \<open>A run in which the interface fails under the listening thread while nobody asked to stop.\<close>

definition interface_lost :: "(string, string) action list" where
  "interface_lost =
     [Call (SetInterface ''wlan0''), Call StartExtensions,
      Worker (ListenStep (Frame ''F'')),
      Worker (ListenStep (CaptureRaises (Exn ''error'' ''Network is down''))),
      Worker (ListenStep (Frame ''F''))]"

section \<open>Properties\<close>

subsection \<open>What \<^verbatim>\<open>_process_packet\<close> appends\<close>

lemma process_loop_queue:
  "snd (snd (process_loop xs pkt q)) =
     q @ concat (map (\<lambda>x. returned_list (fst (call_get_packet x pkt)))
                  (takeWhile (\<lambda>x. \<not> isl (fst (call_get_packet x pkt))) xs))"
proof (induction xs arbitrary: q)
  case Nil
  show ?case by simp
next
  case (Cons x xs)
  show ?case
  proof (cases "call_get_packet x pkt")
    case (Pair r x')
    show ?thesis
    proof (cases r)
      case (Inl e)
      with Pair show ?thesis by simp
    next
      case (Inr received)
      then show ?thesis
        using Pair Cons.IH
        by (cases received) (simp_all add: returned_list_def split_beta Let_def)
    qed
  qed
qed

text \<open>
  C4. For every captured frame and every registry, the queue after \<^verbatim>\<open>_process_packet\<close> is
  the queue before it followed by the lists that the calls of \<^verbatim>\<open>get_packet\<close> returned,
  each once, in registry order and each in its own order. The calls that return are those of
  the extensions up to the first one that raises (all of them when none raises); an empty
  or \<^verbatim>\<open>None\<close> result adds nothing.
\<close>

theorem process_packet_appends_results:
  "packets_to_send (snd (process_packet m pkt)) =
     packets_to_send m @
     concat (map (\<lambda>x. returned_list (fst (call_get_packet x pkt)))
                 (takeWhile (\<lambda>x. \<not> isl (fst (call_get_packet x pkt))) (extensions m)))"
  using process_loop_queue [of "extensions m" pkt "packets_to_send m"]
  by (simp add: process_packet_def split_beta)

subsection \<open>The queue only grows\<close>

lemma process_packet_queue_prefix:
  "prefix (packets_to_send m) (packets_to_send (snd (process_packet m pkt)))"
  using process_loop_queue [of "extensions m" pkt "packets_to_send m"]
  by (simp add: process_packet_def split_beta)

lemma listen_step_queue: "prefix (packets_to_send m) (packets_to_send (listen_step c m))"
proof (cases "listen_thread m")
  case L_Sniff
  show ?thesis
  proof (cases c)
    case (Frame pkt)
    obtain r m' where pp: "process_packet m pkt = (r, m')" by (cases "process_packet m pkt")
    with process_packet_queue_prefix [of m pkt]
    have "prefix (packets_to_send m) (packets_to_send m')" by simp
    with L_Sniff Frame pp show ?thesis
      by (cases r) (simp_all add: listen_step_def)
  next
    case (FrameCaught pkt)
    obtain r m' where pp: "process_packet m pkt = (r, m')" by (cases "process_packet m pkt")
    with process_packet_queue_prefix [of m pkt]
    have "prefix (packets_to_send m) (packets_to_send m')" by simp
    with L_Sniff FrameCaught pp show ?thesis
      by (cases r) (simp_all add: listen_step_def)
  next
    case (CaptureRaises e)
    with L_Sniff show ?thesis by (simp add: listen_step_def)
  qed
qed (simp_all add: listen_step_def)

lemma send_step_queue: "packets_to_send (send_step f m) = packets_to_send m"
  by (simp add: send_step_def split: send_pc.splits option.splits)

lemma worker_queue: "prefix (packets_to_send m) (packets_to_send (worker w m))"
  by (cases w) (simp_all add: listen_step_queue send_step_queue)

lemma run_workers_queue: "prefix (packets_to_send m) (packets_to_send (run_workers ws m))"
  unfolding run_workers_def
proof (induction ws arbitrary: m)
  case Nil
  show ?case by simp
next
  case (Cons w ws)
  have "prefix (packets_to_send m) (packets_to_send (worker w m))" by (rule worker_queue)
  also have "prefix \<dots> (packets_to_send (fold worker ws (worker w m)))" by (rule Cons.IH)
  finally show ?case by simp
qed

lemma call_queue: "prefix (packets_to_send m) (packets_to_send (call env c m))"
proof (cases c)
  case (OnExit ws1 ws2)
  let ?m1 = "m\<lparr>should_continue := False\<rparr>"
  have a: "prefix (packets_to_send m) (packets_to_send (run_workers ws1 ?m1))"
    using run_workers_queue [of ?m1 ws1] by simp
  have "prefix (packets_to_send (run_workers ws1 ?m1))
          (packets_to_send (run_workers ws2 (run_workers ws1 ?m1)))"
    by (rule run_workers_queue)
  with a have "prefix (packets_to_send m) (packets_to_send (run_workers ws2 (run_workers ws1 ?m1)))"
    by (rule prefix_order.trans)
  with a OnExit show ?thesis by (simp add: on_exit_def Let_def)
qed (simp_all add: set_interface_def init_extensions_def start_extensions_def get_output_def
      Let_def split_beta split: option.splits)

lemma step_queue: "prefix (packets_to_send m) (packets_to_send (step env a m))"
  by (cases a) (simp_all add: worker_queue call_queue)

text \<open>
  C10. No operation of the manager removes a frame from \<^verbatim>\<open>_packets_to_send\<close>: after any
  interleaving of steps of the two threads (the dispatch of a frame by \<^verbatim>\<open>_process_packet\<close>,
  the steps of \<^verbatim>\<open>_send\<close>) and calls of the public methods, the queue the run started
  from is a prefix of the queue it ends with, so every frame is still there, at its
  position and in its order.
\<close>

theorem queue_never_drained:
  "prefix (packets_to_send m) (packets_to_send (run env as m))"
  unfolding run_def
proof (induction as arbitrary: m)
  case Nil
  show ?case by simp
next
  case (Cons a as)
  have "prefix (packets_to_send m) (packets_to_send (step env a m))" by (rule step_queue)
  also have "prefix \<dots> (packets_to_send (fold (step env) as (step env a m)))" by (rule Cons.IH)
  finally show ?case by simp
qed

subsection \<open>The shutdown flag\<close>

lemma process_packet_flag: "should_continue (snd (process_packet m pkt)) = should_continue m"
  by (simp add: process_packet_def split_beta)

lemma process_packet_threads:
  "listen_thread (snd (process_packet m pkt)) = listen_thread m"
  "send_thread (snd (process_packet m pkt)) = send_thread m"
  "socket (snd (process_packet m pkt)) = socket m"
  by (simp_all add: process_packet_def split_beta)

lemma listen_step_flag: "should_continue (listen_step c m) = should_continue m"
  by (simp add: listen_step_def split_beta process_packet_flag
      split: listen_pc.splits capture.splits option.splits)

lemma send_step_flag: "should_continue (send_step f m) = should_continue m"
  by (simp add: send_step_def split: send_pc.splits option.splits)

lemma worker_flag: "should_continue (worker w m) = should_continue m"
  by (cases w) (simp_all add: listen_step_flag send_step_flag)

lemma run_workers_flag: "should_continue (run_workers ws m) = should_continue m"
  unfolding run_workers_def
  by (induction ws arbitrary: m) (simp_all add: worker_flag)

lemma on_exit_flag: "\<not> should_continue (snd (on_exit ws1 ws2 m))"
  by (simp add: on_exit_def Let_def run_workers_flag)

lemma set_interface_flag: "should_continue (snd (set_interface env name m)) = should_continue m"
  by (simp add: set_interface_def Let_def split: option.splits)

lemma init_extensions_flag:
  "should_continue (snd (init_extensions env d m)) = should_continue m"
  by (simp add: init_extensions_def split_beta split: option.splits)

lemma start_extensions_flag: "should_continue (snd (start_extensions m)) = should_continue m"
  by (simp add: start_extensions_def Let_def)

lemma get_output_flag: "should_continue (snd (get_output m)) = should_continue m"
  by (simp add: get_output_def split_beta)

lemma call_flag_stays: "\<not> should_continue m \<Longrightarrow> \<not> should_continue (call env c m)"
  by (cases c)
     (simp_all add: set_interface_flag init_extensions_flag start_extensions_flag get_output_flag
        on_exit_flag)

lemma step_flag_stays: "\<not> should_continue m \<Longrightarrow> \<not> should_continue (step env a m)"
  by (cases a) (simp_all add: worker_flag call_flag_stays)

lemma run_flag_stays: "\<not> should_continue m \<Longrightarrow> \<not> should_continue (run env as m)"
  unfolding run_def
  by (induction as arbitrary: m) (simp_all add: step_flag_stays)

text \<open>
  C9. \<^verbatim>\<open>_should_continue\<close> is true in the fresh manager; \<^verbatim>\<open>on_exit\<close> leaves it false,
  whether it returns or raises; every other public method and every step of either
  thread leaves it as it was; so after \<^verbatim>\<open>on_exit\<close> it is false at the end of every
  further run of calls and thread steps.
\<close>

theorem shutdown_flag_one_way:
  "should_continue (ExtensionManager :: ('s, 'p) manager)
   \<and> \<not> should_continue (snd (on_exit ws1 ws2 (m :: ('s, 'p) manager)))
   \<and> should_continue (snd (set_interface (env :: ('v, 's, 'p) environment) name m)) = should_continue m
   \<and> should_continue (snd (init_extensions env d m)) = should_continue m
   \<and> should_continue (snd (start_extensions m)) = should_continue m
   \<and> should_continue (snd (get_output m)) = should_continue m
   \<and> should_continue (worker w m) = should_continue m
   \<and> \<not> should_continue (run env as (snd (on_exit ws1 ws2 m)))"
proof -
  have "\<not> should_continue (run env as (snd (on_exit ws1 ws2 m)))"
    by (rule run_flag_stays) (rule on_exit_flag)
  then show ?thesis
    by (simp add: ExtensionManager_def on_exit_flag set_interface_flag init_extensions_flag
        start_extensions_flag get_output_flag worker_flag)
qed

subsection \<open>What \<^verbatim>\<open>get_output\<close> returns\<close>

lemma output_loop_concat:
  "\<forall>x \<in> set xs. \<not> isl (fst (call_send_output x)) \<Longrightarrow>
   fst (output_loop xs out) =
     Inr (out @ concat (map (\<lambda>x. returned_list (fst (call_send_output x))) xs))"
proof (induction xs arbitrary: out)
  case Nil
  show ?case by simp
next
  case (Cons x xs)
  obtain r x' where c: "call_send_output x = (r, x')" by (cases "call_send_output x")
  from Cons.prems c obtain m_output where r: "r = Inr m_output" by (cases r) simp_all
  from Cons.prems have rest: "\<forall>y \<in> set xs. \<not> isl (fst (call_send_output y))" by simp
  show ?case
    using c r Cons.IH [OF rest]
    by (cases m_output) (simp_all add: returned_list_def split_beta Let_def)
qed

lemma output_loop_raise:
  "\<forall>y \<in> set pre. \<not> isl (fst (call_send_output y)) \<Longrightarrow>
   fst (call_send_output x) = Inl e \<Longrightarrow>
   fst (output_loop (pre @ x # post) out) = Inl e"
proof (induction pre arbitrary: out)
  case Nil
  then show ?case by (cases "call_send_output x") simp
next
  case (Cons y pre)
  obtain r y' where c: "call_send_output y = (r, y')" by (cases "call_send_output y")
  from Cons.prems(1) c obtain m_output where r: "r = Inr m_output" by (cases r) simp_all
  from Cons.prems(1) have rest: "\<forall>z \<in> set pre. \<not> isl (fst (call_send_output z))" by simp
  show ?case
    using c r Cons.IH [OF rest Cons.prems(2)]
    by (simp add: split_beta Let_def)
qed

text \<open>
  C5 as stated fails: it speaks of every registry, and \<^verbatim>\<open>get_output\<close> has no handler. With
  a first extension that logs \<^verbatim>\<open>["a1"]\<close>, a second whose \<^verbatim>\<open>send_output\<close> raises KeyError
  and a third that logs \<^verbatim>\<open>["c1"]\<close>, \<^verbatim>\<open>get_output\<close> raises the KeyError and returns no
  list at all.
\<close>

theorem get_output_raises_with_extension:
  "fst (get_output ((ExtensionManager :: (nat, string) manager)
         \<lparr>extensions := [stub_extension (Inr None) (Inr (Some [''a1''])),
                         stub_extension (Inr None) (Inl (Exn ''KeyError'' ''log'')),
                         stub_extension (Inr None) (Inr (Some [''c1'']))]\<rparr>))
     = Inl (Exn ''KeyError'' ''log'')"
  by (simp add: get_output_def ExtensionManager_def stub_extension_def call_send_output_def
      Let_def)

text \<open>
  C5, amended. For every registry whose extensions all answer \<^verbatim>\<open>send_output\<close>,
  \<^verbatim>\<open>get_output\<close> returns the concatenation of their answers in registry order, each in its
  own order, an empty or \<^verbatim>\<open>None\<close> answer adding nothing. When the \<^verbatim>\<open>send_output\<close> of some
  extension raises and those before it in the registry answer, \<^verbatim>\<open>get_output\<close> raises that
  exception and returns nothing.
\<close>

theorem get_output_concatenates_or_raises:
  "((\<forall>x \<in> set (extensions m). \<not> isl (fst (call_send_output x))) \<longrightarrow>
      fst (get_output m) =
        Inr (concat (map (\<lambda>x. returned_list (fst (call_send_output x))) (extensions m))))
   \<and> (extensions m = pre @ x # post
        \<and> (\<forall>y \<in> set pre. \<not> isl (fst (call_send_output y)))
        \<and> fst (call_send_output x) = Inl e \<longrightarrow>
      fst (get_output m) = Inl e)"
proof (intro conjI impI)
  assume "\<forall>x \<in> set (extensions m). \<not> isl (fst (call_send_output x))"
  from output_loop_concat [OF this, of "[]"]
  show "fst (get_output m) =
          Inr (concat (map (\<lambda>x. returned_list (fst (call_send_output x))) (extensions m)))"
    by (simp add: get_output_def split_beta)
next
  assume a: "extensions m = pre @ x # post
        \<and> (\<forall>y \<in> set pre. \<not> isl (fst (call_send_output y)))
        \<and> fst (call_send_output x) = Inl e"
  then have "fst (output_loop (pre @ x # post) []) = Inl e"
    by (intro output_loop_raise) simp_all
  with a show "fst (get_output m) = Inl e"
    by (simp add: get_output_def split_beta)
qed

text \<open>
  The amended C5 at the example of the specification (A logs \<^verbatim>\<open>["a1","a2"]\<close>, B logs
  \<^verbatim>\<open>[]\<close>, the output is \<^verbatim>\<open>["a1","a2"]\<close>) and at the registry with the raising extension.
\<close>

theorem get_output_concatenates_or_raises_witness:
  "\<not> isl (fst (call_send_output (stub_extension (Inr None) (Inr (Some [''a1'', ''a2''])))))
   \<and> \<not> isl (fst (call_send_output (stub_extension (Inr None) (Inr (Some [])))))
   \<and> fst (get_output ((ExtensionManager :: (nat, string) manager)
         \<lparr>extensions := [stub_extension (Inr None) (Inr (Some [''a1'', ''a2''])),
                         stub_extension (Inr None) (Inr (Some []))]\<rparr>))
       = Inr [''a1'', ''a2'']
   \<and> \<not> isl (fst (call_send_output (stub_extension (Inr None) (Inr (Some [''a1''])))))
   \<and> fst (call_send_output (stub_extension (Inr None) (Inl (Exn ''KeyError'' ''log''))))
       = Inl (Exn ''KeyError'' ''log'')
   \<and> fst (get_output ((ExtensionManager :: (nat, string) manager)
         \<lparr>extensions := [stub_extension (Inr None) (Inr (Some [''a1''])),
                         stub_extension (Inr None) (Inl (Exn ''KeyError'' ''log'')),
                         stub_extension (Inr None) (Inr (Some [''c1'']))]\<rparr>))
       = Inl (Exn ''KeyError'' ''log'')"
proof -
  let ?a = "stub_extension (Inr None) (Inr (Some [''a1'']))"
  let ?b = "stub_extension (Inr None) (Inl (Exn ''KeyError'' ''log''))"
  let ?c = "stub_extension (Inr None) (Inr (Some [''c1'']))"
  let ?m1 = "(ExtensionManager :: (nat, string) manager)
         \<lparr>extensions := [stub_extension (Inr None) (Inr (Some [''a1'', ''a2''])),
                         stub_extension (Inr None) (Inr (Some []))]\<rparr>"
  let ?m2 = "(ExtensionManager :: (nat, string) manager)\<lparr>extensions := [?a, ?b, ?c]\<rparr>"
  have h1: "\<forall>x \<in> set (extensions ?m1). \<not> isl (fst (call_send_output x))"
    by (simp add: stub_extension_def call_send_output_def)
  have h2: "extensions ?m2 = [?a] @ ?b # [?c]
        \<and> (\<forall>y \<in> set [?a]. \<not> isl (fst (call_send_output y)))
        \<and> fst (call_send_output ?b) = Inl (Exn ''KeyError'' ''log'')"
    by (simp add: stub_extension_def call_send_output_def)
  have r1: "fst (get_output ?m1) = Inr [''a1'', ''a2'']"
    using get_output_concatenates_or_raises [of ?m1] h1
    by (simp add: stub_extension_def call_send_output_def returned_list_def)
  have r2: "fst (get_output ?m2) = Inl (Exn ''KeyError'' ''log'')"
    using get_output_concatenates_or_raises [of ?m2 "[?a]" ?b "[?c]" "Exn ''KeyError'' ''log''"] h2
    by blast
  from r1 r2 h1 h2 show ?thesis
    by (simp add: stub_extension_def call_send_output_def)
qed

subsection \<open>The socket is never closed\<close>

lemma lookup_time: "lookup_global ''time'' = Some (Exn ''NameError'' ''time'')"
  by (simp add: lookup_global_def module_globals_def)

lemma listen_step_send_side:
  "send_thread (listen_step c m) = send_thread m"
  "socket (listen_step c m) = socket m"
  by (simp_all add: listen_step_def split_beta process_packet_threads
      split: listen_pc.splits capture.splits option.splits)

lemma send_step_never_closed: "never_closed m \<Longrightarrow> never_closed (send_step f m)"
  by (auto simp add: never_closed_def close_count_def send_step_def lookup_time
      split: send_pc.splits option.splits)

lemma worker_never_closed: "never_closed m \<Longrightarrow> never_closed (worker w m)"
proof (cases w)
  case (ListenStep c)
  assume "never_closed m"
  with ListenStep show ?thesis
    by (simp add: never_closed_def close_count_def listen_step_send_side)
next
  case (SendStep f)
  assume "never_closed m"
  with SendStep show ?thesis by (simp add: send_step_never_closed)
qed

lemma run_workers_never_closed: "never_closed m \<Longrightarrow> never_closed (run_workers ws m)"
  unfolding run_workers_def
  by (induction ws arbitrary: m) (simp_all add: worker_never_closed)

lemma call_never_closed: "never_closed m \<Longrightarrow> never_closed (call env c m)"
proof (cases c)
  case (OnExit ws1 ws2)
  assume "never_closed m"
  then have start: "never_closed (m\<lparr>should_continue := False\<rparr>)"
    by (simp add: never_closed_def close_count_def)
  then have a: "never_closed (run_workers ws1 (m\<lparr>should_continue := False\<rparr>))"
    by (rule run_workers_never_closed)
  then have "never_closed (run_workers ws2 (run_workers ws1 (m\<lparr>should_continue := False\<rparr>)))"
    by (rule run_workers_never_closed)
  with a start OnExit show ?thesis
    by (simp add: on_exit_def Let_def)
qed (auto simp add: never_closed_def close_count_def set_interface_def init_extensions_def
      start_extensions_def get_output_def Let_def split_beta split: option.splits)

lemma step_never_closed: "never_closed m \<Longrightarrow> never_closed (step env a m)"
  by (cases a) (simp_all add: worker_never_closed call_never_closed)

lemma run_never_closed: "never_closed m \<Longrightarrow> never_closed (run env as m)"
  unfolding run_def
  by (induction as arbitrary: m) (simp_all add: step_never_closed)

text \<open>
  In no run of a fresh manager is the socket ever closed: \<^verbatim>\<open>time.sleep(1)\<close> stands between
  the loop and \<^verbatim>\<open>self._socket.close()\<close>, the module never imports \<^verbatim>\<open>time\<close>, and the
  NameError goes to the handler, which drops it.
\<close>

lemma socket_never_closed: "close_count (run env as ExtensionManager) = 0"
proof -
  have "never_closed (ExtensionManager :: ('a, 'b) manager)"
    by (simp add: never_closed_def close_count_def ExtensionManager_def)
  then have "never_closed (run env as ExtensionManager)" by (rule run_never_closed)
  then show ?thesis by (simp add: never_closed_def)
qed

lemma title_x_y: "title ''x'' = ''X''" "title ''y'' = ''Y''"
  by (simp_all add: title_def islower_def isupper_def toupper_def tolower_def
      ascii_lowercase_def ascii_uppercase_def)

lemmas run_defs =
  run_def run_workers_def on_exit_def set_interface_def start_extensions_def
  init_extensions_def get_output_def listen_step_def send_step_def process_packet_def
  call_get_packet_def call_send_output_def stub_extension_def stub_environment_def
  ExtensionManager_def lookup_time close_count_def stopfilter_def import_module_def
  getattr_def title_x_y x_module_def env_x_only_def env_y_raises_def env_both_def Let_def

text \<open>
  C1 asks that \<^verbatim>\<open>_send\<close> close its socket exactly once on exit after a shutdown request,
  whether or not the queue was ever non-empty. The code reaches its handler instead of
  \<^verbatim>\<open>close()\<close>: in the run with the queue always empty and in the run with one frame
  queued and sent, the sending thread has ended after \<^verbatim>\<open>on_exit\<close> and the socket was
  closed zero times.
\<close>

theorem send_ends_without_close:
  "(let m = run env_both quiet_shutdown ExtensionManager
    in send_thread m = S_Done None \<and> \<not> should_continue m \<and> packets_to_send m = []
       \<and> socket m = Some \<lparr>iface = ''wlan0'', sent = [], closed = 0\<rparr>)
   \<and> (let m = run env_both busy_shutdown ExtensionManager
      in send_thread m = S_Done None \<and> \<not> should_continue m \<and> packets_to_send m = [''G1'']
         \<and> socket m = Some \<lparr>iface = ''wlan0'', sent = [''G1''], closed = 0\<rparr>)"
  by (simp add: run_defs quiet_shutdown_def busy_shutdown_def)

subsection \<open>No exception ever leaves a thread\<close>

lemma listen_step_raised:
  "listen_raised (listen_thread (listen_step c m)) = listen_raised (listen_thread m)"
proof (cases "listen_thread m")
  case L_Sniff
  then show ?thesis
    by (simp add: listen_step_def split_beta split: capture.splits option.splits)
qed (simp_all add: listen_step_def)

lemma send_step_listen_side: "listen_thread (send_step f m) = listen_thread m"
  by (cases "send_thread m") (simp_all add: send_step_def lookup_time split: option.splits)

lemma send_step_raised:
  "send_raised (send_thread (send_step f m)) = send_raised (send_thread m)"
  by (cases "send_thread m") (simp_all add: send_step_def lookup_time split: option.splits)

lemma worker_raised: "thread_raised (worker w m) = thread_raised m"
  by (cases w)
     (simp_all add: thread_raised_def listen_step_raised send_step_raised
        listen_step_send_side send_step_listen_side)

lemma run_workers_raised: "thread_raised (run_workers ws m) = thread_raised m"
  unfolding run_workers_def
  by (induction ws arbitrary: m) (simp_all add: worker_raised)

lemma call_raised: "\<not> thread_raised m \<Longrightarrow> \<not> thread_raised (call env c m)"
proof (cases c)
  case (OnExit ws1 ws2)
  assume "\<not> thread_raised m"
  then have start: "\<not> thread_raised (m\<lparr>should_continue := False\<rparr>)"
    by (simp add: thread_raised_def)
  with OnExit show ?thesis
    by (simp add: on_exit_def Let_def run_workers_raised)
next
  case StartExtensions
  assume "\<not> thread_raised m"
  with StartExtensions show ?thesis
    by (simp add: thread_raised_def start_extensions_def Let_def)
qed (simp_all add: thread_raised_def set_interface_def init_extensions_def
      get_output_def Let_def split_beta split: option.splits)

lemma step_raised: "\<not> thread_raised m \<Longrightarrow> \<not> thread_raised (step env a m)"
  by (cases a) (simp_all add: worker_raised call_raised)

text \<open>
  In no run of a fresh manager does an exception leave \<^verbatim>\<open>_listen\<close> or \<^verbatim>\<open>_send\<close>: the bare
  \<^verbatim>\<open>except\<close> of each catches everything, and its body does nothing on either side of its
  test of the flag.
\<close>

lemma threads_never_raise: "\<not> thread_raised (run env as ExtensionManager)"
proof -
  have "\<not> thread_raised (ExtensionManager :: ('a, 'b) manager)"
    by (simp add: thread_raised_def ExtensionManager_def)
  moreover have "\<not> thread_raised m \<Longrightarrow> \<not> thread_raised (fold (step env) as m)" for m
    by (induction as arbitrary: m) (simp_all add: step_raised)
  ultimately show ?thesis by (simp add: run_def)
qed

text \<open>
  C2 asks that an error of the capture primitive be surfaced when it strikes while
  \<^verbatim>\<open>_should_continue\<close> is still true. The code drops it: when sniffing fails with
  "Network is down" and nobody asked to stop, the listening thread ends as if it had
  returned, the flag is still true, and nothing in the manager records the error.
\<close>

theorem listen_drops_error_while_running:
  "run env_both interface_lost ExtensionManager =
     \<lparr>extensions = [], interface = Some ''wlan0'',
      socket = Some \<lparr>iface = ''wlan0'', sent = [], closed = 0\<rparr>,
      should_continue = True, packets_to_send = [],
      listen_thread = L_Done None, send_thread = S_OuterWhile\<rparr>"
  by (simp add: run_defs interface_lost_def)

subsection \<open>An extension that raises in \<^verbatim>\<open>get_packet\<close>\<close>






subsection \<open>Loading an identifier that does not resolve, or whose constructor raises\<close>

lemma load_loop_Cons:
  "load_loop env d (x # rest) exts =
     (case construct env d x of
        Inl e \<Rightarrow> (Some e, exts)
      | Inr obj \<Rightarrow> load_loop env d rest (exts @ [obj]))"
  by (simp add: construct_def resolve_def split: sum.splits)

lemma load_loop_prefix:
  "\<forall>x \<in> set pre. \<not> isl (construct env d x) \<Longrightarrow>
   load_loop env d (pre @ rest) exts =
     load_loop env d rest (exts @ map (\<lambda>x. projr (construct env d x)) pre)"
proof (induction pre arbitrary: exts)
  case Nil
  show ?case by simp
next
  case (Cons x pre)
  from Cons.prems obtain obj where obj: "construct env d x = Inr obj"
    by (cases "construct env d x") simp_all
  from Cons.prems have "\<forall>y \<in> set pre. \<not> isl (construct env d y)" by simp
  from Cons.IH [OF this, of "exts @ [obj]"] obj show ?case
    by (simp del: load_loop.simps add: load_loop_Cons)
qed

text \<open>
  C6 as stated fails: with \<^verbatim>\<open>x\<close> and \<^verbatim>\<open>y\<close> configured and no module for \<^verbatim>\<open>y\<close>, the load
  raises the ImportError of the import machinery, which carries the module path; there is
  no PluginLoadError.
\<close>

theorem unresolvable_is_not_PluginLoadError:
  "fst (init_extensions env_x_only [] (ExtensionManager :: (nat, string) manager)) =
     Some (Exn ''ImportError'' ''wifiphisher.extensions.y'')
   \<and> map_option exn_class
        (fst (init_extensions env_x_only [] (ExtensionManager :: (nat, string) manager)))
       \<noteq> Some ''PluginLoadError''"
  by (simp add: run_defs)

text \<open>
  C6, amended. When the shared data converts, the identifiers before \<open>y\<close> in the
  configuration all load and construct, and \<open>y\<close> has no matching constructor, then
  \<^verbatim>\<open>init_extensions\<close> raises the lookup error of Python itself: ImportError carrying the
  module path (load path followed by \<open>y\<close>) when there is no such module, otherwise
  AttributeError carrying the title-cased \<open>y\<close>, the class name the module lacks.
\<close>

theorem init_extensions_unresolvable:
  assumes "namedtuple env (map fst d) = None"
    and "EXTENSIONS env = pre @ y # post"
    and "\<forall>x \<in> set pre. \<not> isl (construct env d x)"
    and "isl (resolve env y)"
  shows "fst (init_extensions env d m) =
           Some (case map_of (modules env) (EXTENSIONS_LOADPATH env @ y) of
                   None \<Rightarrow> Exn ''ImportError'' (EXTENSIONS_LOADPATH env @ y)
                 | Some modl \<Rightarrow> Exn ''AttributeError'' (title y))"
proof -
  let ?exts = "extensions m @ map (\<lambda>x. projr (construct env d x)) pre"
  have "load_loop env d (pre @ y # post) (extensions m) = load_loop env d (y # post) ?exts"
    using assms(3) by (rule load_loop_prefix)
  moreover have "fst (load_loop env d (y # post) ?exts) =
           Some (case map_of (modules env) (EXTENSIONS_LOADPATH env @ y) of
                   None \<Rightarrow> Exn ''ImportError'' (EXTENSIONS_LOADPATH env @ y)
                 | Some modl \<Rightarrow> Exn ''AttributeError'' (title y))"
    using assms(4)
    by (simp add: resolve_def import_module_def getattr_def split: option.splits)
  ultimately show ?thesis
    using assms(1,2) by (simp add: init_extensions_def split_beta)
qed

theorem init_extensions_unresolvable_witness:
  "\<not> isl (construct env_x_only [] ''x'')
   \<and> isl (resolve env_x_only ''y'')
   \<and> fst (init_extensions env_x_only [] (ExtensionManager :: (nat, string) manager)) =
       Some (Exn ''ImportError'' ''wifiphisher.extensions.y'')"
proof -
  have h1: "namedtuple env_x_only (map fst ([] :: string shared_data)) = None"
    by (simp add: run_defs)
  have h2: "EXTENSIONS env_x_only = [''x''] @ ''y'' # []"
    by (simp add: run_defs)
  have h3: "\<forall>x \<in> set [''x'']. \<not> isl (construct env_x_only [] x)"
    by (simp add: construct_def resolve_def run_defs)
  have h4: "isl (resolve env_x_only ''y'')"
    by (simp add: resolve_def run_defs)
  from init_extensions_unresolvable [OF h1 h2 h3 h4, of ExtensionManager] h3 h4
  show ?thesis
    by (simp add: env_x_only_def stub_environment_def x_module_def)
qed

text \<open>
  C7 as stated fails: with \<^verbatim>\<open>x\<close> and \<^verbatim>\<open>y\<close> configured and a constructor of \<^verbatim>\<open>y\<close> that
  raises IOError, the load raises that IOError itself, not a PluginInitError, and the
  registry is not as before the load: it holds the extension built for \<^verbatim>\<open>x\<close>.
\<close>

theorem constructor_failure_leaves_partial_registry:
  "init_extensions env_y_raises [] (ExtensionManager :: (nat, string) manager) =
     (Some (Exn ''IOError'' ''resource unavailable''),
      ExtensionManager\<lparr>extensions := [stub_extension (Inr (Some [''G1''])) (Inr None)]\<rparr>)
   \<and> extensions (snd (init_extensions env_y_raises [] (ExtensionManager :: (nat, string) manager)))
       \<noteq> extensions (ExtensionManager :: (nat, string) manager)"
  by (simp add: run_defs)

text \<open>
  C7, amended. When the shared data converts, the identifiers before \<open>y\<close> all load and
  construct, and the constructor of \<open>y\<close> raises \<open>e\<close>, then \<^verbatim>\<open>init_extensions\<close> raises \<open>e\<close>
  itself, unwrapped; the load stops there (nothing after \<open>y\<close> is built); and the
  extensions built before \<open>y\<close> stay appended to \<^verbatim>\<open>_extensions\<close>, the rest of the manager
  being as before.
\<close>

theorem init_extensions_constructor_failure:
  assumes "namedtuple env (map fst d) = None"
    and "EXTENSIONS env = pre @ y # post"
    and "\<forall>x \<in> set pre. \<not> isl (construct env d x)"
    and "resolve env y = Inr ExtensionClass"
    and "ExtensionClass d = Inl e"
  shows "init_extensions env d m =
           (Some e, m\<lparr>extensions := extensions m @ map (\<lambda>x. projr (construct env d x)) pre\<rparr>)"
proof -
  let ?exts = "extensions m @ map (\<lambda>x. projr (construct env d x)) pre"
  have "load_loop env d (pre @ y # post) (extensions m) = load_loop env d (y # post) ?exts"
    using assms(3) by (rule load_loop_prefix)
  moreover have "load_loop env d (y # post) ?exts = (Some e, ?exts)"
    using assms(4,5) by (simp del: load_loop.simps add: load_loop_Cons construct_def)
  ultimately show ?thesis
    using assms(1,2) by (simp add: init_extensions_def)
qed

theorem init_extensions_constructor_failure_witness:
  "\<not> isl (construct env_y_raises [] ''x'')
   \<and> init_extensions env_y_raises [] (ExtensionManager :: (nat, string) manager) =
       (Some (Exn ''IOError'' ''resource unavailable''),
        ExtensionManager\<lparr>extensions := [stub_extension (Inr (Some [''G1''])) (Inr None)]\<rparr>)"
proof -
  have h1: "namedtuple env_y_raises (map fst ([] :: string shared_data)) = None"
    by (simp add: run_defs)
  have h2: "EXTENSIONS env_y_raises = [''x''] @ ''y'' # []"
    by (simp add: run_defs)
  have h3: "\<forall>x \<in> set [''x'']. \<not> isl (construct env_y_raises [] x)"
    by (simp add: construct_def resolve_def run_defs)
  have h4: "resolve env_y_raises ''y'' = Inr (\<lambda>shared_data. Inl (Exn ''IOError'' ''resource unavailable''))"
    by (simp add: resolve_def run_defs)
  have h5: "(\<lambda>shared_data :: string shared_data. Inl (Exn ''IOError'' ''resource unavailable'')
              :: exn + (nat, string) extension) [] = Inl (Exn ''IOError'' ''resource unavailable'')"
    by simp
  from init_extensions_constructor_failure [OF h1 h2 h3 h4 h5, of ExtensionManager] h3
  show ?thesis
    by (simp add: construct_def resolve_def run_defs)
qed

subsection \<open>What \<^verbatim>\<open>on_exit\<close> returns\<close>

lemma send_step_started:
  "send_thread m \<noteq> S_NotStarted \<Longrightarrow> send_thread (send_step f m) \<noteq> S_NotStarted"
  by (cases "send_thread m") (simp_all add: send_step_def lookup_time split: option.splits)

lemma worker_send_started:
  "send_thread m \<noteq> S_NotStarted \<Longrightarrow> send_thread (worker w m) \<noteq> S_NotStarted"
  by (cases w) (simp_all add: send_step_started listen_step_send_side)

lemma run_workers_send_started:
  "send_thread m \<noteq> S_NotStarted \<Longrightarrow> send_thread (run_workers ws m) \<noteq> S_NotStarted"
  unfolding run_workers_def
  by (induction ws arbitrary: m) (simp_all add: worker_send_started)

text \<open>
  C8 as stated fails: the listening thread waits in \<^verbatim>\<open>sniff\<close> for a frame that does not
  come, the sending thread ends while \<^verbatim>\<open>on_exit\<close> waits, and \<^verbatim>\<open>on_exit\<close> returns \<^verbatim>\<open>None\<close>
  with the listening thread still in \<^verbatim>\<open>sniff\<close>: the caller is told nothing.
\<close>

theorem on_exit_reports_nothing:
  "on_exit [SendStep None, SendStep None, SendStep None] []
     ((ExtensionManager :: (nat, string) manager)
        \<lparr>listen_thread := L_Sniff, send_thread := S_OuterWhile\<rparr>)
   = (None,
      (ExtensionManager :: (nat, string) manager)
        \<lparr>should_continue := False, listen_thread := L_Sniff, send_thread := S_Done None\<rparr>)"
  by (simp add: run_defs)

text \<open>
  C8, amended. \<^verbatim>\<open>on_exit\<close> takes no timeout. On a manager whose two threads were started
  it clears \<^verbatim>\<open>_should_continue\<close>, waits for each thread in turn (at most the fixed five
  seconds each) and returns \<^verbatim>\<open>None\<close>, whatever the threads did during the waits and
  whether or not they have ended; it changes nothing else.
\<close>

theorem on_exit_returns_none:
  assumes "listen_thread m \<noteq> L_NotStarted" and "send_thread m \<noteq> S_NotStarted"
  shows "on_exit ws1 ws2 m =
           (None, run_workers ws2 (run_workers ws1 (m\<lparr>should_continue := False\<rparr>)))"
proof -
  have "send_thread (run_workers ws1 (m\<lparr>should_continue := False\<rparr>)) \<noteq> S_NotStarted"
    by (rule run_workers_send_started) (simp add: assms(2))
  with assms(1) show ?thesis by (simp add: on_exit_def Let_def)
qed

theorem on_exit_returns_none_witness:
  "listen_thread (snd (start_extensions (ExtensionManager :: (nat, string) manager))) \<noteq> L_NotStarted
   \<and> send_thread (snd (start_extensions (ExtensionManager :: (nat, string) manager))) \<noteq> S_NotStarted
   \<and> fst (on_exit [ListenStep (Frame ''F''), SendStep None] []
            (snd (start_extensions (ExtensionManager :: (nat, string) manager)))) = None"
proof -
  let ?m = "snd (start_extensions (ExtensionManager :: (nat, string) manager))"
  have h1: "listen_thread ?m \<noteq> L_NotStarted" by (simp add: run_defs)
  have h2: "send_thread ?m \<noteq> S_NotStarted" by (simp add: run_defs)
  from on_exit_returns_none [OF h1 h2, of "[ListenStep (Frame ''F''), SendStep None]" "[]"] h1 h2
  show ?thesis by simp
qed

end
